theory Spec2Isabelle
  imports Main "HOL-Library.FSet" "HOL-Library.Word"
begin

unbundle bit_operations_syntax

section \<open>The signaling server: room registry and relay\<close>

text \<open>
  The server keeps one module-level \<^verbatim>\<open>rooms = new Map()\<close> from a room name to an object
  \<^verbatim>\<open>{ users: Set, occupancy }\<close>. Socket.IO keeps, beside it, which socket has joined which
  of its own broadcast rooms (\<^verbatim>\<open>socket.join\<close>, \<^verbatim>\<open>socket.leave\<close>); that membership
  decides who receives \<^verbatim>\<open>socket.to(room).emit(...)\<close>. Each socket also carries the
  attribute \<^verbatim>\<open>socket.currentRoom\<close>. The three together are the state of the server.
  Socket identifiers and room names are strings.
\<close>

type_synonym sid = string
type_synonym room_id = string
type_synonym payload = string

record room_data =
  users :: "sid fset"
  occupancy :: nat

record server =
  rooms :: "room_id \<rightharpoonup> room_data"
  adapter :: "room_id \<Rightarrow> sid fset"
  currentRoom :: "sid \<rightharpoonup> room_id"

text \<open>The messages the server emits, and an emission: one message with the sockets it goes to.\<close>

datatype message =
    RoomFull
  | RoomJoined nat
  | UserJoined sid nat
  | UserLeft sid nat
  | OfferMsg payload sid
  | AnswerMsg payload sid
  | IceCandidateMsg payload sid

datatype emission = Emit (recipients: "sid fset") (msg: message)

text \<open>\<^verbatim>\<open>socket.emit(m)\<close> reaches the socket itself.\<close>

definition socket_emit :: "sid \<Rightarrow> message \<Rightarrow> emission" where
  "socket_emit sock m = Emit {|sock|} m"

text \<open>\<^verbatim>\<open>socket.to(room).emit(m)\<close> reaches every socket of the broadcast room but the sender.\<close>

definition socket_to :: "server \<Rightarrow> sid \<Rightarrow> room_id \<Rightarrow> message \<Rightarrow> emission" where
  "socket_to s sock room m = Emit (adapter s room |-| {|sock|}) m"

text \<open>\<^verbatim>\<open>socket.join(room)\<close> and \<^verbatim>\<open>socket.leave(room)\<close>.\<close>

definition socket_join :: "server \<Rightarrow> sid \<Rightarrow> room_id \<Rightarrow> server" where
  "socket_join s sock room = s\<lparr>adapter := (adapter s)(room := finsert sock (adapter s room))\<rparr>"

definition socket_leave :: "server \<Rightarrow> sid \<Rightarrow> room_id \<Rightarrow> server" where
  "socket_leave s sock room = s\<lparr>adapter := (adapter s)(room := adapter s room |-| {|sock|})\<rparr>"

text \<open>
  The handler of \<^verbatim>\<open>join-room\<close>. The capacity test reads the stored \<^verbatim>\<open>occupancy\<close> field;
  an accepted join adds the socket to the \<^verbatim>\<open>Set\<close> and stores the set's size.
\<close>

definition join_room :: "server \<Rightarrow> sid \<Rightarrow> room_id \<Rightarrow> server \<times> emission list" where
  "join_room s sock room =
     (let roomData = (case rooms s room of
                        Some rd \<Rightarrow> rd
                      | None \<Rightarrow> \<lparr>users = {||}, occupancy = 0\<rparr>)
      in if occupancy roomData \<ge> 2 then (s, [socket_emit sock RoomFull])
         else
           let s1 = socket_join s sock room;
               roomData1 = roomData\<lparr>users := finsert sock (users roomData)\<rparr>;
               roomData2 = roomData1\<lparr>occupancy := fcard (users roomData1)\<rparr>;
               s2 = s1\<lparr>rooms := (rooms s1)(room \<mapsto> roomData2)\<rparr>;
               s3 = s2\<lparr>currentRoom := (currentRoom s2)(sock \<mapsto> room)\<rparr>
           in (s3, [socket_emit sock (RoomJoined (occupancy roomData2)),
                    socket_to s3 sock room (UserJoined sock (occupancy roomData2))]))"

text \<open>
  \<^verbatim>\<open>handleUserLeave(socket, room)\<close>: when the room is recorded, the socket is deleted from
  its set (no test that it was a member), the size is stored, and the room is either
  removed (size 0) or the others in the broadcast room are told \<^verbatim>\<open>userLeft\<close>. In every
  case the socket leaves the broadcast room and its \<^verbatim>\<open>currentRoom\<close> is cleared.
\<close>

definition handleUserLeave :: "server \<Rightarrow> sid \<Rightarrow> room_id \<Rightarrow> server \<times> emission list" where
  "handleUserLeave s sock room =
     (let (s1, out) =
            (case rooms s room of
               None \<Rightarrow> (s, [])
             | Some roomData \<Rightarrow>
                 let roomData1 = roomData\<lparr>users := users roomData |-| {|sock|}\<rparr>;
                     roomData2 = roomData1\<lparr>occupancy := fcard (users roomData1)\<rparr>
                 in if occupancy roomData2 = 0
                    then (s\<lparr>rooms := (rooms s)(room := None)\<rparr>, [])
                    else (s\<lparr>rooms := (rooms s)(room \<mapsto> roomData2)\<rparr>,
                          [socket_to s sock room (UserLeft sock (occupancy roomData2))]));
          s2 = socket_leave s1 sock room;
          s3 = s2\<lparr>currentRoom := (currentRoom s2)(sock := None)\<rparr>
      in (s3, out))"

text \<open>
  The events a connected client can cause. On \<^verbatim>\<open>connection\<close> Socket.IO puts the socket
  into the broadcast room named by its own identifier; on \<^verbatim>\<open>disconnect\<close> it has taken
  the socket out of every broadcast room before the handler runs, and the handler leaves
  \<^verbatim>\<open>socket.currentRoom\<close> only when that attribute is truthy (set, and not the empty
  string).
\<close>

datatype event =
    Connect sid
  | JoinRoom sid room_id
  | Offer sid room_id payload
  | Answer sid room_id payload
  | IceCandidate sid room_id payload
  | LeaveRoom sid room_id
  | Disconnect sid

fun step :: "server \<Rightarrow> event \<Rightarrow> server \<times> emission list" where
  "step s (Connect sock) = (socket_join s sock sock, [])"
| "step s (JoinRoom sock room) = join_room s sock room"
| "step s (Offer sock room offer) = (s, [socket_to s sock room (OfferMsg offer sock)])"
| "step s (Answer sock room answer) = (s, [socket_to s sock room (AnswerMsg answer sock)])"
| "step s (IceCandidate sock room candidate) =
     (s, [socket_to s sock room (IceCandidateMsg candidate sock)])"
| "step s (LeaveRoom sock room) = handleUserLeave s sock room"
| "step s (Disconnect sock) =
     (let s1 = s\<lparr>adapter := (\<lambda>r. adapter s r |-| {|sock|})\<rparr>
      in case currentRoom s1 sock of
           None \<Rightarrow> (s1, [])
         | Some room \<Rightarrow> if room = [] then (s1, []) else handleUserLeave s1 sock room)"

text \<open>The server starts with no room; a run handles the events one after the other.\<close>

definition init_server :: server where
  "init_server = \<lparr>rooms = Map.empty, adapter = (\<lambda>_. {||}), currentRoom = Map.empty\<rparr>"

fun run :: "server \<Rightarrow> event list \<Rightarrow> server" where
  "run s [] = s"
| "run s (e # es) = run (fst (step s e)) es"

text \<open>The occupancy of a room is its stored field, and 0 for a room that is not recorded.\<close>

definition occupancy_of :: "server \<Rightarrow> room_id \<Rightarrow> nat" where
  "occupancy_of s room = (case rooms s room of None \<Rightarrow> 0 | Some rd \<Rightarrow> occupancy rd)"

definition occupants :: "server \<Rightarrow> room_id \<Rightarrow> sid fset" where
  "occupants s room = (case rooms s room of None \<Rightarrow> {||} | Some rd \<Rightarrow> users rd)"

text \<open>
  The invariant of the registry: every recorded room stores the size of its set, and that
  size is 1 or 2 (an emptied room is removed).
\<close>

definition room_ok :: "room_data \<Rightarrow> bool" where
  "room_ok rd = (occupancy rd = fcard (users rd) \<and> 1 \<le> occupancy rd \<and> occupancy rd \<le> 2)"

definition registry_ok :: "server \<Rightarrow> bool" where
  "registry_ok s = (\<forall>room rd. rooms s room = Some rd \<longrightarrow> room_ok rd)"

section \<open>The frame cipher engine: class E2EECrypto\<close>

type_synonym byte = "8 word"
type_synonym bytes = "byte list"

text \<open>
  \<^verbatim>\<open>crypto.subtle\<close> is the browser's Web Crypto interface. The engine calls three of
  its operations; they are parameters of the model: PBKDF2 key derivation (password, salt,
  iterations, hash, key length in bits), AES-GCM encryption (key, iv, data) and AES-GCM
  decryption, whose rejected promise (failed authentication, or any other error) is
  \<open>None\<close>.
\<close>

record 'k subtle =
  deriveKey :: "bytes \<Rightarrow> bytes \<Rightarrow> nat \<Rightarrow> string \<Rightarrow> nat \<Rightarrow> 'k"
  encrypt :: "'k \<Rightarrow> bytes \<Rightarrow> bytes \<Rightarrow> bytes"
  decrypt :: "'k \<Rightarrow> bytes \<Rightarrow> bytes \<Rightarrow> bytes option"

text \<open>
  \<^verbatim>\<open>new TextEncoder().encode(str)\<close>: the bytes of the string (a \<open>string\<close> here is the
  list of its UTF-8 bytes).
\<close>

definition encode :: "string \<Rightarrow> bytes" where
  "encode str = map (\<lambda>c. word_of_nat (of_char c)) str"

text \<open>The fields the constructor sets; \<^verbatim>\<open>null\<close> is \<open>None\<close>.\<close>

record 'k E2EECrypto =
  cryptoKey :: "'k option"
  encryptionKey :: "'k option"
  ivCounter :: nat

definition E2EECrypto_new :: "'k E2EECrypto" where
  "E2EECrypto_new = \<lparr>cryptoKey = None, encryptionKey = None, ivCounter = 0\<rparr>"

definition deriveKeyFromPIN :: "'k subtle \<Rightarrow> 'k E2EECrypto \<Rightarrow> string \<Rightarrow> 'k E2EECrypto" where
  "deriveKeyFromPIN cs e pin =
     (let pinData = encode pin;
          salt = encode ''SecureVideoCall2025''
      in e\<lparr>cryptoKey := Some (deriveKey cs pinData salt 100000 ''SHA-256'' 256)\<rparr>)"

text \<open>
  JavaScript's bitwise operators work on 32 bits: both operands are reduced modulo
  \<open>2 ^ 32\<close> (\<^verbatim>\<open>ToInt32\<close>), the shift count of \<^verbatim>\<open>>>\<close> is taken modulo 32, and the result
  is read as a signed 32-bit number.
\<close>

definition ToInt32 :: "int \<Rightarrow> 32 word" where
  "ToInt32 x = word_of_int x"

definition js_sar :: "int \<Rightarrow> int \<Rightarrow> int" where
  "js_sar a b = sint (signed_drop_bit (nat (b mod 32)) (ToInt32 a))"

definition js_bitand :: "int \<Rightarrow> int \<Rightarrow> int" where
  "js_bitand a b = sint (ToInt32 a AND ToInt32 b)"

text \<open>
  \<^verbatim>\<open>view.setUint32(off, v)\<close> stores \<open>v\<close> modulo \<open>2 ^ 32\<close> in four bytes, the most
  significant first. It raises a RangeError when the four bytes do not fit; the engine
  calls it at offsets 0 and 4 of a buffer of 12 bytes only, and the model leaves the
  buffer as it is otherwise.
\<close>

definition setUint32 :: "bytes \<Rightarrow> nat \<Rightarrow> int \<Rightarrow> bytes" where
  "setUint32 buf off v =
     (let w = (word_of_int v :: 32 word)
      in if off + 4 \<le> length buf
         then buf[off := ucast (drop_bit 24 w), off + 1 := ucast (drop_bit 16 w),
                  off + 2 := ucast (drop_bit 8 w), off + 3 := ucast w]
         else buf)"

text \<open>
  \<^verbatim>\<open>this.ivCounter++\<close> on a JavaScript number: exact up to \<open>2 ^ 53\<close>, where adding 1
  rounds back to \<open>2 ^ 53\<close>. A counter that starts at 0 takes the values \<open>0 .. 2 ^ 53\<close>
  only.
\<close>

definition js_incr :: "nat \<Rightarrow> nat" where
  "js_incr n = (if n < 2 ^ 53 then n + 1 else n)"

definition generateIV :: "'k E2EECrypto \<Rightarrow> bytes \<times> 'k E2EECrypto" where
  "generateIV e =
     (let iv = replicate 12 0;
          iv1 = setUint32 iv 0 (js_sar (int (ivCounter e)) 32);
          iv2 = setUint32 iv1 4 (js_bitand (int (ivCounter e)) 0xFFFFFFFF)
      in (iv2, e\<lparr>ivCounter := js_incr (ivCounter e)\<rparr>))"

definition encryptFrame :: "'k subtle \<Rightarrow> 'k E2EECrypto \<Rightarrow> bytes \<Rightarrow> bytes \<times> 'k E2EECrypto" where
  "encryptFrame cs e data =
     (case cryptoKey e of
        None \<Rightarrow> (data, e)
      | Some k \<Rightarrow>
          let (iv, e1) = generateIV e;
              encrypted = encrypt cs k iv data
          in (iv @ encrypted, e1))"

definition decryptFrame :: "'k subtle \<Rightarrow> 'k E2EECrypto \<Rightarrow> bytes \<Rightarrow> bytes" where
  "decryptFrame cs e data =
     (case cryptoKey e of
        None \<Rightarrow> data
      | Some k \<Rightarrow>
          if length data < 12 then data
          else
            let iv = take 12 data;
                encrypted = drop 12 data
            in case decrypt cs k iv encrypted of
                 Some decrypted \<Rightarrow> decrypted
               | None \<Rightarrow> [])"

text \<open>Successive calls of \<^verbatim>\<open>encryptFrame\<close> on one engine, one per outgoing frame.\<close>

fun encryptFrames :: "'k subtle \<Rightarrow> 'k E2EECrypto \<Rightarrow> bytes list \<Rightarrow> bytes list \<times> 'k E2EECrypto" where
  "encryptFrames cs e [] = ([], e)"
| "encryptFrames cs e (d # ds) =
     (let (c, e1) = encryptFrame cs e d;
          (rest, e2) = encryptFrames cs e1 ds
      in (c # rest, e2))"

text \<open>
  What the engine needs of AES-GCM to recover a frame: decrypting, under the same key and
  the same 12-byte iv, what encryption produced gives the data back.
\<close>

definition aead_correct :: "'k subtle \<Rightarrow> bool" where
  "aead_correct cs =
     (\<forall>k iv p. length iv = 12 \<longrightarrow> decrypt cs k iv (encrypt cs k iv p) = Some p)"

text \<open>
  The big-endian bytes of a number below \<open>2 ^ 32\<close>, in plain arithmetic, to state what an
  iv holds.
\<close>

definition be32 :: "nat \<Rightarrow> bytes" where
  "be32 v = [word_of_nat (v div 2 ^ 24 mod 256), word_of_nat (v div 2 ^ 16 mod 256),
             word_of_nat (v div 2 ^ 8 mod 256), word_of_nat (v mod 256)]"

text \<open>
  The twelve bytes \<^verbatim>\<open>generateIV\<close> returns at counter \<open>n\<close> (lemma \<open>generateIV_bytes\<close>
  below): the counter modulo \<open>2 ^ 32\<close> twice, then four zero bytes.
\<close>

definition iv_bytes :: "nat \<Rightarrow> bytes" where
  "iv_bytes n = be32 (n mod 2 ^ 32) @ be32 (n mod 2 ^ 32) @ [0, 0, 0, 0]"

text \<open>
  A small instance of the three operations, with byte lists as keys: the key is the
  password followed by the salt, and a ciphertext is a one-byte tag of key and iv followed
  by the data. It is no cipher; it shows that \<open>aead_correct\<close> can hold, and gives
  concrete frames to evaluate the engine on.
\<close>

definition toy_tag :: "bytes \<Rightarrow> bytes \<Rightarrow> byte" where
  "toy_tag k iv = sum_list (k @ iv)"

definition toy_subtle :: "bytes subtle" where
  "toy_subtle =
     \<lparr>deriveKey = (\<lambda>password salt iterations hash len. password @ salt),
      encrypt = (\<lambda>k iv p. toy_tag k iv # p),
      decrypt = (\<lambda>k iv c. case c of
                             [] \<Rightarrow> None
                           | t # p \<Rightarrow> if t = toy_tag k iv then Some p else None)\<rparr>"

section \<open>The client: joining and leaving\<close>

text \<open>
  The part of the \<^verbatim>\<open>App\<close> component that talks to the signaling server. The references
  to the peer connection and to the local media stream are kept as flags (set or null);
  \<^verbatim>\<open>socketRef.current\<close> is set once the component is mounted.
\<close>

datatype call_status = Idle | Connecting | Waiting | Incall

record 'k client =
  pin :: string
  status :: call_status
  currentRoomRef :: "room_id option"
  cryptoRef :: "'k E2EECrypto"
  peerConnectionRef :: bool
  localStreamRef :: bool

datatype client_emit = EmitJoinRoom room_id | EmitLeaveRoom room_id

text \<open>The test \<^verbatim>\<open>/^\d+$/.test(pin)\<close>: one or more characters, all of them digits.\<close>

definition digits_only :: "string \<Rightarrow> bool" where
  "digits_only p = (p \<noteq> [] \<and> list_all (\<lambda>ch. ch \<in> set ''0123456789'') p)"

text \<open>
  \<^verbatim>\<open>handleJoin\<close>: a PIN that is not exactly 10 digits is refused (the source tests
  \<^verbatim>\<open>pin.length !== 10 || !/^\d+$/.test(pin)\<close>); otherwise the room reference is set to
  the PIN, the key is derived, and, when the media stream could be opened (\<open>media_ok\<close>),
  \<^verbatim>\<open>join-room\<close> is emitted.
\<close>

definition handleJoin :: "'k subtle \<Rightarrow> 'k client \<Rightarrow> bool \<Rightarrow> client_emit list \<times> 'k client" where
  "handleJoin cs c media_ok =
     (if \<not> (length (pin c) = 10 \<and> digits_only (pin c))
      then ([], c)
      else
        let c1 = c\<lparr>status := Connecting, currentRoomRef := Some (pin c)\<rparr>;
            c2 = c1\<lparr>cryptoRef := deriveKeyFromPIN cs (cryptoRef c1) (pin c)\<rparr>
        in if \<not> media_ok then ([], c2\<lparr>status := Idle\<rparr>)
           else ([EmitJoinRoom (pin c)], c2\<lparr>localStreamRef := True\<rparr>))"

text \<open>
  \<^verbatim>\<open>handleLeave\<close>: \<^verbatim>\<open>leave-room\<close> is emitted when the room reference is truthy (set, and
  not the empty string); the engine is replaced by a new one.
\<close>

definition handleLeave :: "'k client \<Rightarrow> client_emit list \<times> 'k client" where
  "handleLeave c =
     ((case currentRoomRef c of
         None \<Rightarrow> []
       | Some room \<Rightarrow> if room = [] then [] else [EmitLeaveRoom room]),
      c\<lparr>peerConnectionRef := False, localStreamRef := False, status := Idle, pin := [],
        currentRoomRef := None, cryptoRef := E2EECrypto_new\<rparr>)"

text \<open>The handler of \<^verbatim>\<open>roomFull\<close> alerts the user and calls \<^verbatim>\<open>handleLeave\<close>.\<close>

definition on_roomFull :: "'k client \<Rightarrow> client_emit list \<times> 'k client" where
  "on_roomFull c = handleLeave c"

text \<open>What the client emits, as the event the server handles for that socket.\<close>

fun to_event :: "sid \<Rightarrow> client_emit \<Rightarrow> event" where
  "to_event sock (EmitJoinRoom room) = JoinRoom sock room"
| "to_event sock (EmitLeaveRoom room) = LeaveRoom sock room"

text \<open>A client as the component creates it, with the PIN the user has typed.\<close>

definition client_new :: "string \<Rightarrow> 'k client" where
  "client_new p =
     \<lparr>pin = p, status = Idle, currentRoomRef = None, cryptoRef = E2EECrypto_new,
      peerConnectionRef = False, localStreamRef = False\<rparr>"

section \<open>The registry keeps its invariant\<close>

lemma registry_ok_init: "registry_ok init_server"
  by (simp add: registry_ok_def init_server_def)

lemma registry_okD: "registry_ok s \<Longrightarrow> rooms s room = Some rd \<Longrightarrow> room_ok rd"
  unfolding registry_ok_def by blast

lemma registry_ok_cong: "rooms s' = rooms s \<Longrightarrow> registry_ok s \<Longrightarrow> registry_ok s'"
  by (simp add: registry_ok_def)

lemma registry_ok_update:
  "registry_ok s \<Longrightarrow> room_ok rd \<Longrightarrow> rooms s' = (rooms s)(room \<mapsto> rd) \<Longrightarrow> registry_ok s'"
  by (simp add: registry_ok_def)

lemma registry_ok_delete:
  "registry_ok s \<Longrightarrow> rooms s' = (rooms s)(room := None) \<Longrightarrow> registry_ok s'"
  by (simp add: registry_ok_def)

lemma room_data_updates:
  "rd\<lparr>users := u, occupancy := n\<rparr> = \<lparr>users = u, occupancy = n\<rparr>"
  by (cases rd) simp

lemma fcard_member_pos: "x |\<in>| A \<Longrightarrow> 1 \<le> fcard A"
  using fcard_Suc_fminus1 [of x A] by simp

lemma join_room_rooms:
  "rooms (fst (join_room s sock room)) =
     (if occupancy_of s room \<ge> 2 then rooms s
      else (rooms s)(room \<mapsto> \<lparr>users = finsert sock (occupants s room),
                               occupancy = fcard (finsert sock (occupants s room))\<rparr>))"
  by (cases "rooms s room")
     (simp_all add: join_room_def occupancy_of_def occupants_def socket_join_def Let_def
        room_data_updates)

lemma handleUserLeave_rooms:
  "rooms (fst (handleUserLeave s sock room)) =
     (case rooms s room of
        None \<Rightarrow> rooms s
      | Some rd \<Rightarrow>
          if fcard (users rd |-| {|sock|}) = 0 then (rooms s)(room := None)
          else (rooms s)(room \<mapsto> \<lparr>users = users rd |-| {|sock|},
                                   occupancy = fcard (users rd |-| {|sock|})\<rparr>))"
  by (cases "rooms s room")
     (simp_all add: handleUserLeave_def socket_leave_def Let_def room_data_updates)

lemma occupancy_of_fcard: "registry_ok s \<Longrightarrow> occupancy_of s room = fcard (occupants s room)"
  by (cases "rooms s room")
     (auto simp: occupancy_of_def occupants_def room_ok_def dest: registry_okD)

lemma occupancy_of_le: "registry_ok s \<Longrightarrow> occupancy_of s room \<le> 2"
  by (cases "rooms s room")
     (auto simp: occupancy_of_def room_ok_def dest: registry_okD)

lemma registry_ok_join_room:
  assumes "registry_ok s"
  shows "registry_ok (fst (join_room s sock room))"
proof (cases "occupancy_of s room \<ge> 2")
  case True
  then show ?thesis
    using assms by (auto intro: registry_ok_cong simp: join_room_rooms)
next
  case False
  let ?rd = "\<lparr>users = finsert sock (occupants s room),
              occupancy = fcard (finsert sock (occupants s room))\<rparr>"
  from False occupancy_of_fcard [OF assms, of room]
  have "room_ok ?rd" by (auto simp: room_ok_def fcard_finsert_if dest: fcard_member_pos)
  moreover from False have "rooms (fst (join_room s sock room)) = (rooms s)(room \<mapsto> ?rd)"
    by (simp add: join_room_rooms)
  ultimately show ?thesis using assms by (blast intro: registry_ok_update)
qed

lemma registry_ok_handleUserLeave:
  assumes "registry_ok s"
  shows "registry_ok (fst (handleUserLeave s sock room))"
proof (cases "rooms s room")
  case None
  then show ?thesis
    using assms by (auto intro: registry_ok_cong simp: handleUserLeave_rooms)
next
  case (Some rd)
  from registry_okD [OF assms Some]
  have rd: "occupancy rd = fcard (users rd)" "occupancy rd \<le> 2" by (simp_all add: room_ok_def)
  let ?rd = "\<lparr>users = users rd |-| {|sock|}, occupancy = fcard (users rd |-| {|sock|})\<rparr>"
  show ?thesis
  proof (cases "fcard (users rd |-| {|sock|}) = 0")
    case True
    with Some have "rooms (fst (handleUserLeave s sock room)) = (rooms s)(room := None)"
      by (simp add: handleUserLeave_rooms)
    with assms show ?thesis by (blast intro: registry_ok_delete)
  next
    case False
    have "fcard (users rd |-| {|sock|}) \<le> fcard (users rd)"
      by (simp add: fcard_fminus_fsingleton_if)
    moreover from False have "1 \<le> fcard (users rd |-| {|sock|})" by linarith
    ultimately have "room_ok ?rd" using rd by (simp add: room_ok_def)
    moreover from Some False
    have "rooms (fst (handleUserLeave s sock room)) = (rooms s)(room \<mapsto> ?rd)"
      by (simp add: handleUserLeave_rooms)
    ultimately show ?thesis using assms by (blast intro: registry_ok_update)
  qed
qed

lemma registry_ok_step: "registry_ok s \<Longrightarrow> registry_ok (fst (step s e))"
proof (cases e)
  case (Connect sock)
  assume "registry_ok s"
  then show ?thesis using Connect
    by (auto intro: registry_ok_cong simp: socket_join_def)
next
  case (Disconnect sock)
  assume ok: "registry_ok s"
  let ?s1 = "s\<lparr>adapter := (\<lambda>r. adapter s r |-| {|sock|})\<rparr>"
  from ok have ok1: "registry_ok ?s1" by (auto intro: registry_ok_cong)
  show ?thesis
    using Disconnect ok1 registry_ok_handleUserLeave [OF ok1]
    by (simp add: Let_def split: option.splits)
qed (simp_all add: registry_ok_join_room registry_ok_handleUserLeave)

lemma registry_ok_run: "registry_ok s \<Longrightarrow> registry_ok (run s evs)"
  by (induction evs arbitrary: s) (auto simp: registry_ok_step)

lemma join_room_full:
  "occupancy_of s room = 2 \<Longrightarrow> join_room s sock room = (s, [Emit {|sock|} RoomFull])"
  by (auto simp: occupancy_of_def join_room_def socket_emit_def split: option.splits)

text \<open>
  C2. After every finite sequence of events handled from the start of the server
  (joins, leaves, disconnects and the relayed messages), the occupancy of every room is
  0, 1 or 2; and a \<^verbatim>\<open>join-room\<close> for a room whose occupancy is 2 is answered by
  \<^verbatim>\<open>roomFull\<close> to the sender alone and leaves the whole state as it was.
\<close>

theorem occupancy_bounded_full_join_rejected:
  "occupancy_of (run init_server evs) room \<le> 2 \<and>
   (occupancy_of (run init_server evs) room = 2 \<longrightarrow>
      step (run init_server evs) (JoinRoom sock room)
        = (run init_server evs, [Emit {|sock|} RoomFull]))"
  using occupancy_of_le [OF registry_ok_run [OF registry_ok_init]] join_room_full
  by simp

theorem occupancy_bounded_full_join_rejected_witness:
  "occupancy_of (run init_server [JoinRoom ''X'' ''1111111111'', JoinRoom ''Y'' ''1111111111''])
      ''1111111111'' = 2 \<and>
   step (run init_server [JoinRoom ''X'' ''1111111111'', JoinRoom ''Y'' ''1111111111''])
        (JoinRoom ''Z'' ''1111111111'')
     = (run init_server [JoinRoom ''X'' ''1111111111'', JoinRoom ''Y'' ''1111111111''],
        [Emit {|''Z''|} RoomFull])"
proof -
  have h: "occupancy_of (run init_server [JoinRoom ''X'' ''1111111111'', JoinRoom ''Y'' ''1111111111''])
      ''1111111111'' = 2"
    by (simp add: init_server_def join_room_def socket_join_def occupancy_of_def Let_def
        fcard_finsert_if fcard_fempty)
  from h occupancy_bounded_full_join_rejected
    [of "[JoinRoom ''X'' ''1111111111'', JoinRoom ''Y'' ''1111111111'']" "''1111111111''" "''Z''"]
  show ?thesis by blast
qed

section \<open>Joining a room\<close>

lemma join_room_accepted:
  assumes "occupancy_of s room < 2"
  shows "join_room s sock room =
     (s\<lparr>adapter := (adapter s)(room := finsert sock (adapter s room)),
        rooms := (rooms s)(room \<mapsto> \<lparr>users = finsert sock (occupants s room),
                               occupancy = fcard (finsert sock (occupants s room))\<rparr>),
        currentRoom := (currentRoom s)(sock \<mapsto> room)\<rparr>,
      [Emit {|sock|} (RoomJoined (fcard (finsert sock (occupants s room)))),
       Emit (adapter s room |-| {|sock|})
            (UserJoined sock (fcard (finsert sock (occupants s room))))])"
  using assms
  by (cases "rooms s room")
     (simp_all add: join_room_def occupancy_of_def occupants_def socket_join_def socket_emit_def
        socket_to_def Let_def room_data_updates)

text \<open>
  C7, the property as it holds. For every join accepted after any run of the server
  (occupancy below 2), the socket is in the room's set afterwards, and the occupancy told
  in \<^verbatim>\<open>roomJoined\<close> and \<^verbatim>\<open>userJoined\<close> is the size of that set: the previous occupancy
  plus 1 when the socket was not yet recorded in the room, and the previous occupancy
  itself when it already was. In both cases it is 1 or 2.
\<close>

theorem accepted_join_reports_set_size:
  assumes "occupancy_of (run init_server evs) room < 2"
  shows "occupants (fst (step (run init_server evs) (JoinRoom sock room))) room
           = finsert sock (occupants (run init_server evs) room) \<and>
         occupancy_of (fst (step (run init_server evs) (JoinRoom sock room))) room
           = (if sock |\<in>| occupants (run init_server evs) room
              then occupancy_of (run init_server evs) room
              else occupancy_of (run init_server evs) room + 1) \<and>
         occupancy_of (fst (step (run init_server evs) (JoinRoom sock room))) room \<in> {1, 2} \<and>
         snd (step (run init_server evs) (JoinRoom sock room))
           = [Emit {|sock|}
                (RoomJoined (occupancy_of (fst (step (run init_server evs) (JoinRoom sock room))) room)),
              Emit (adapter (run init_server evs) room |-| {|sock|})
                (UserJoined sock
                   (occupancy_of (fst (step (run init_server evs) (JoinRoom sock room))) room))]"
proof -
  let ?s = "run init_server evs"
  let ?O = "occupants ?s room"
  let ?s' = "fst (step ?s (JoinRoom sock room))"
  have ok: "registry_ok ?s" by (rule registry_ok_run [OF registry_ok_init])
  have n: "occupancy_of ?s room = fcard ?O"
    by (rule occupancy_of_fcard [OF ok])
  have r: "rooms ?s' room = Some \<lparr>users = finsert sock ?O, occupancy = fcard (finsert sock ?O)\<rparr>"
    by (simp add: join_room_accepted [OF assms])
  have o: "occupants ?s' room = finsert sock ?O"
    by (simp only: occupants_def r) simp
  have v: "occupancy_of ?s' room = fcard (finsert sock ?O)"
    by (simp only: occupancy_of_def r) simp
  have c: "fcard (finsert sock ?O) = (if sock |\<in>| ?O then occupancy_of ?s room
                                      else occupancy_of ?s room + 1)"
    by (simp add: fcard_finsert_if n)
  have "1 \<le> fcard (finsert sock ?O)"
    by (rule fcard_member_pos [of sock]) simp
  moreover from assms c have "fcard (finsert sock ?O) \<le> 2"
    by (simp split: if_splits)
  ultimately have m: "fcard (finsert sock ?O) \<in> {1, 2}" by auto
  have e: "snd (step ?s (JoinRoom sock room))
      = [Emit {|sock|} (RoomJoined (fcard (finsert sock ?O))),
         Emit (adapter ?s room |-| {|sock|}) (UserJoined sock (fcard (finsert sock ?O)))]"
    by (simp add: join_room_accepted [OF assms])
  from o v c m e show ?thesis by (simp only:)
qed

theorem accepted_join_reports_set_size_witness:
  "occupancy_of (run init_server [JoinRoom ''X'' ''1111111111'']) ''1111111111'' < 2 \<and>
   occupants (fst (step (run init_server [JoinRoom ''X'' ''1111111111''])
                     (JoinRoom ''Y'' ''1111111111''))) ''1111111111'' = {|''Y'', ''X''|} \<and>
   snd (step (run init_server [JoinRoom ''X'' ''1111111111'']) (JoinRoom ''Y'' ''1111111111''))
     = [Emit {|''Y''|} (RoomJoined 2), Emit {|''X''|} (UserJoined ''Y'' 2)]"
proof -
  let ?S = "run init_server [JoinRoom ''X'' ''1111111111'']"
  let ?S' = "fst (step ?S (JoinRoom ''Y'' ''1111111111''))"
  have v: "occupancy_of ?S ''1111111111'' = 1"
    by (simp add: init_server_def join_room_def socket_join_def occupancy_of_def Let_def
        fcard_finsert_if fcard_fempty)
  have o: "occupants ?S ''1111111111'' = {|''X''|}"
    by (simp add: init_server_def join_room_def socket_join_def occupants_def Let_def)
  have a: "adapter ?S ''1111111111'' = {|''X''|}"
    by (simp add: init_server_def join_room_def socket_join_def Let_def)
  from v have h: "occupancy_of ?S ''1111111111'' < 2" by simp
  note t = accepted_join_reports_set_size [OF h, of "''Y''"]
  from t have n: "occupancy_of ?S' ''1111111111'' = 2"
    unfolding o v by simp
  from t have "occupants ?S' ''1111111111'' = {|''Y'', ''X''|}"
    unfolding o by blast
  moreover from t have "snd (step ?S (JoinRoom ''Y'' ''1111111111''))
     = [Emit {|''Y''|} (RoomJoined 2), Emit {|''X''|} (UserJoined ''Y'' 2)]"
    unfolding n a by simp
  ultimately show ?thesis using h by blast
qed

text \<open>
  C7 as stated fails for a socket that is already recorded in the room: after X has
  joined, a second \<^verbatim>\<open>join-room\<close> of X for the same room is accepted (occupancy 1), and
  the occupancy reported is 1, not 1 + 1.
\<close>

theorem rejoin_reports_unchanged_occupancy:
  "occupancy_of (run init_server [JoinRoom ''X'' ''1111111111'']) ''1111111111'' = 1 \<and>
   snd (step (run init_server [JoinRoom ''X'' ''1111111111'']) (JoinRoom ''X'' ''1111111111''))
     = [Emit {|''X''|} (RoomJoined 1), Emit {||} (UserJoined ''X'' 1)] \<and>
   (1 :: nat) \<noteq> occupancy_of (run init_server [JoinRoom ''X'' ''1111111111'']) ''1111111111'' + 1"
  by (simp add: init_server_def join_room_def socket_join_def socket_emit_def socket_to_def
      occupancy_of_def Let_def fcard_finsert_if fcard_fempty)

section \<open>A rejected join, and what the rejected client does next\<close>

text \<open>
  C1, at the input where it fails. X and Y occupy room 1111111111; Z's client runs
  \<^verbatim>\<open>handleJoin\<close> with that PIN and emits \<^verbatim>\<open>join-room\<close>. The server answers
  \<^verbatim>\<open>roomFull\<close> to Z alone. Z's handler of \<^verbatim>\<open>roomFull\<close> calls \<^verbatim>\<open>handleLeave\<close>, which
  emits \<^verbatim>\<open>leave-room\<close> for the room Z never joined; \<^verbatim>\<open>handleUserLeave\<close> then sends
  \<^verbatim>\<open>userLeft\<close> with occupancy 2 to X and Y.
\<close>

theorem rejected_client_leave_notifies_occupants:
  "fst (handleJoin toy_subtle (client_new ''1111111111'') True) = [EmitJoinRoom ''1111111111''] \<and>
   occupancy_of
     (run init_server [Connect ''X'', JoinRoom ''X'' ''1111111111'',
                       Connect ''Y'', JoinRoom ''Y'' ''1111111111'', Connect ''Z''])
     ''1111111111'' = 2 \<and>
   snd (step
     (run init_server [Connect ''X'', JoinRoom ''X'' ''1111111111'',
                       Connect ''Y'', JoinRoom ''Y'' ''1111111111'', Connect ''Z''])
     (to_event ''Z'' (EmitJoinRoom ''1111111111''))) = [Emit {|''Z''|} RoomFull] \<and>
   fst (on_roomFull (snd (handleJoin toy_subtle (client_new ''1111111111'') True)))
     = [EmitLeaveRoom ''1111111111''] \<and>
   snd (step
     (run init_server [Connect ''X'', JoinRoom ''X'' ''1111111111'',
                       Connect ''Y'', JoinRoom ''Y'' ''1111111111'', Connect ''Z'',
                       JoinRoom ''Z'' ''1111111111''])
     (to_event ''Z'' (EmitLeaveRoom ''1111111111'')))
     = [Emit {|''X'', ''Y''|} (UserLeft ''Z'' 2)]"
  by (simp add: init_server_def join_room_def handleUserLeave_def socket_join_def
      socket_leave_def socket_emit_def socket_to_def occupancy_of_def Let_def
      fcard_finsert_if fcard_fempty handleJoin_def digits_only_def on_roomFull_def
      handleLeave_def client_new_def finsert_commute)

section \<open>The iv of a frame\<close>

lemma zeros12: "replicate 12 (0::byte) = [0,0,0,0,0,0,0,0,0,0,0,0]"
  by (simp add: numeral_eq_Suc)

lemma js_sar_32: "ToInt32 (js_sar a 32) = ToInt32 a"
  by (simp add: js_sar_def ToInt32_def)

lemma js_bitand_ones: "ToInt32 (js_bitand a 0xFFFFFFFF) = ToInt32 a"
proof -
  have m: "(4294967295 :: 32 word) = - 1" by simp
  show ?thesis by (simp add: js_bitand_def ToInt32_def m)
qed

lemma setUint32_0:
  "setUint32 [a0,a1,a2,a3,a4,a5,a6,a7,a8,a9,a10,a11] 0 v =
     [ucast (drop_bit 24 (ToInt32 v)), ucast (drop_bit 16 (ToInt32 v)),
      ucast (drop_bit 8 (ToInt32 v)), ucast (ToInt32 v), a4,a5,a6,a7,a8,a9,a10,a11]"
  by (simp add: setUint32_def ToInt32_def Let_def)

lemma setUint32_4:
  "setUint32 [a0,a1,a2,a3,a4,a5,a6,a7,a8,a9,a10,a11] 4 v =
     [a0,a1,a2,a3, ucast (drop_bit 24 (ToInt32 v)), ucast (drop_bit 16 (ToInt32 v)),
      ucast (drop_bit 8 (ToInt32 v)), ucast (ToInt32 v), a8,a9,a10,a11]"
  by (simp add: setUint32_def ToInt32_def Let_def)

lemma byte_of_word:
  "(ucast (drop_bit k (word_of_nat n :: 32 word)) :: 8 word) = word_of_nat (n mod 2 ^ 32 div 2 ^ k mod 256)"
proof -
  have "unat (ucast (drop_bit k (word_of_nat n :: 32 word)) :: 8 word)
      = take_bit 8 (unat (drop_bit k (word_of_nat n :: 32 word)))"
    by (simp add: unsigned_ucast_eq)
  also have "\<dots> = take_bit 8 (drop_bit k (unat (word_of_nat n :: 32 word)))"
    by (simp only: unat_drop_bit_eq)
  also have "\<dots> = n mod 2 ^ 32 div 2 ^ k mod 256"
    by (simp add: unat_of_nat take_bit_eq_mod drop_bit_eq_div)
  finally have "unat (ucast (drop_bit k (word_of_nat n :: 32 word)) :: 8 word)
      = n mod 2 ^ 32 div 2 ^ k mod 256" .
  moreover have "unat (word_of_nat (n mod 2 ^ 32 div 2 ^ k mod 256) :: 8 word) = n mod 2 ^ 32 div 2 ^ k mod 256"
    by (simp add: unat_of_nat)
  ultimately show ?thesis by (simp add: word_unat_eq_iff)
qed

lemma ToInt32_int: "ToInt32 (int n) = word_of_nat n"
  by (simp add: ToInt32_def)

lemma generateIV_bytes:
  "fst (generateIV e) =
     be32 (ivCounter e mod 2 ^ 32) @ be32 (ivCounter e mod 2 ^ 32) @ [0, 0, 0, 0]"
proof -
  have b: "\<And>k. (ucast (drop_bit k (word_of_nat (ivCounter e) :: 32 word)) :: 8 word)
      = word_of_nat (ivCounter e mod 2 ^ 32 div 2 ^ k mod 256)"
    by (rule byte_of_word)
  have b0: "(ucast (word_of_nat (ivCounter e) :: 32 word) :: 8 word)
      = word_of_nat (ivCounter e mod 2 ^ 32 mod 256)"
    using b [of 0] by simp
  show ?thesis
    by (simp add: generateIV_def Let_def zeros12 setUint32_0 setUint32_4 js_sar_32
        js_bitand_ones ToInt32_int b b0 be32_def)
qed

lemma generateIV_length [simp]: "length (fst (generateIV e)) = 12"
  by (simp add: generateIV_bytes be32_def)

lemma generateIV_snd: "snd (generateIV e) = e\<lparr>ivCounter := js_incr (ivCounter e)\<rparr>"
  by (simp add: generateIV_def Let_def)

lemma generateIV_key [simp]: "cryptoKey (snd (generateIV e)) = cryptoKey e"
  by (simp add: generateIV_snd)

lemma generateIV_counter [simp]: "ivCounter (snd (generateIV e)) = js_incr (ivCounter e)"
  by (simp add: generateIV_snd)

lemma encryptFrame_keyed:
  "cryptoKey e = Some k \<Longrightarrow>
     encryptFrame cs e d = (fst (generateIV e) @ encrypt cs k (fst (generateIV e)) d,
                            snd (generateIV e))"
  by (simp add: encryptFrame_def split_beta Let_def)

lemma encryptFrame_prefix:
  "cryptoKey e = Some k \<Longrightarrow> take 12 (fst (encryptFrame cs e d)) = fst (generateIV e)"
  by (simp add: encryptFrame_keyed)

lemma js_incr_funpow: "(js_incr ^^ i) 0 = min i (2 ^ 53)"
proof (induction i)
  case 0
  show ?case by simp
next
  case (Suc i)
  then show ?case by (simp add: js_incr_def min_def)
qed

lemma encryptFrames_nth:
  "cryptoKey e = Some k \<Longrightarrow> i < length ds \<Longrightarrow>
     take 12 (fst (encryptFrames cs e ds) ! i)
       = iv_bytes ((js_incr ^^ i) (ivCounter e))"
proof (induction ds arbitrary: e i)
  case Nil
  then show ?case by simp
next
  case (Cons d ds)
  show ?case
  proof (cases i)
    case 0
    with Cons.prems show ?thesis
      by (simp add: split_beta Let_def encryptFrame_prefix generateIV_bytes iv_bytes_def)
  next
    case (Suc j)
    from Cons.prems(1) have k1: "cryptoKey (snd (encryptFrame cs e d)) = Some k"
      by (simp add: encryptFrame_keyed)
    from Cons.prems(1) have c1: "ivCounter (snd (encryptFrame cs e d)) = js_incr (ivCounter e)"
      by (simp add: encryptFrame_keyed)
    from Suc Cons.prems(2) have "j < length ds" by simp
    from Cons.IH [OF k1 this] Suc c1 show ?thesis
      by (simp add: split_beta Let_def funpow_swap1)
  qed
qed

lemma byte_of_nat_inj:
  assumes "(word_of_nat a :: byte) = word_of_nat b" and "a < 256" and "b < 256"
  shows "a = b"
proof -
  from assms(1) have "unat (word_of_nat a :: byte) = unat (word_of_nat b :: byte)" by simp
  with assms(2,3) show ?thesis by (simp add: unat_of_nat)
qed

lemma split_byte: "(x::nat) = x div 256 * 256 + x mod 256"
  by simp

lemma be32_inj:
  assumes "be32 v = be32 w" and "v < 2 ^ 32" and "w < 2 ^ 32"
  shows "v = w"
proof -
  have e16: "(2::nat) ^ 16 = 256 * 256" and e24: "(2::nat) ^ 24 = 256 * 256 * 256"
    and e8: "(2::nat) ^ 8 = 256" by simp_all
  from assms(1) have
    a: "v div 2 ^ 24 mod 256 = w div 2 ^ 24 mod 256" and
    b: "v div 2 ^ 16 mod 256 = w div 2 ^ 16 mod 256" and
    c: "v div 2 ^ 8 mod 256 = w div 2 ^ 8 mod 256" and
    d: "v mod 256 = w mod 256"
    by (auto simp: be32_def intro: byte_of_nat_inj)
  have v3: "v div 256 div 256 div 256 < 256" and w3: "w div 256 div 256 div 256 < 256"
    using assms(2,3) by (simp_all add: div_mult2_eq [symmetric] less_mult_imp_div_less)
  have q24: "x div 16777216 = x div 256 div 256 div 256" for x :: nat
    by (simp add: div_mult2_eq [symmetric])
  have q16: "x div 65536 = x div 256 div 256" for x :: nat
    by (simp add: div_mult2_eq [symmetric])
  from a v3 w3 have a': "v div 256 div 256 div 256 = w div 256 div 256 div 256"
    by (simp add: q24)
  from b have b': "v div 256 div 256 mod 256 = w div 256 div 256 mod 256"
    by (simp add: q16)
  from c have c': "v div 256 mod 256 = w div 256 mod 256"
    by (simp add: e8)
  have "v div 256 div 256 = w div 256 div 256"
    using split_byte [of "v div 256 div 256"] split_byte [of "w div 256 div 256"] a' b'
    by (simp only:)
  then have "v div 256 = w div 256"
    using split_byte [of "v div 256"] split_byte [of "w div 256"] c'
    by (simp only:)
  then show "v = w"
    using split_byte [of v] split_byte [of w] d
    by (simp only:)
qed

lemma length_be32 [simp]: "length (be32 v) = 4"
  by (simp add: be32_def)

lemma iv_bytes_inj: "i < 2 ^ 32 \<Longrightarrow> j < 2 ^ 32 \<Longrightarrow> iv_bytes i = iv_bytes j \<Longrightarrow> i = j"
  by (auto simp: iv_bytes_def dest: be32_inj)

text \<open>
  C4, at the input where it fails. \<^verbatim>\<open>ivCounter >> 32\<close> shifts by \<open>32 mod 32 = 0\<close>, so
  bytes 0 to 3 hold the counter modulo \<open>2 ^ 32\<close>, as bytes 4 to 7 do, and not the counter
  divided by \<open>2 ^ 32\<close>: at counter 1 they are 0, 0, 0, 1, where the high half of 1 is
  0, 0, 0, 0.
\<close>

theorem generateIV_high_half_at_1:
  "fst (generateIV ((E2EECrypto_new :: bytes E2EECrypto)\<lparr>ivCounter := 1\<rparr>))
     = [0, 0, 0, 1, 0, 0, 0, 1, 0, 0, 0, 0] \<and>
   take 4 (fst (generateIV ((E2EECrypto_new :: bytes E2EECrypto)\<lparr>ivCounter := 1\<rparr>)))
     \<noteq> be32 (1 div 2 ^ 32)"
  by (simp add: generateIV_bytes be32_def)

text \<open>
  Within the first \<open>2 ^ 32\<close> calls of an engine whose counter is 0 when the key is set,
  the ivs are pairwise different.
\<close>

lemma ivs_distinct_below_2_32:
  assumes "cryptoKey e = Some k" and "ivCounter e = 0"
    and "i < j" and "j < length ds" and "j < 2 ^ 32"
  shows "take 12 (fst (encryptFrames cs e ds) ! i) \<noteq> take 12 (fst (encryptFrames cs e ds) ! j)"
proof -
  from assms have i: "i < length ds" "i < 2 ^ 32" by simp_all
  have "take 12 (fst (encryptFrames cs e ds) ! i) = iv_bytes i"
    using encryptFrames_nth [OF assms(1) i(1), of cs] i(2)
    by (simp only: assms(2) js_incr_funpow) simp
  moreover have "take 12 (fst (encryptFrames cs e ds) ! j) = iv_bytes j"
    using encryptFrames_nth [OF assms(1) assms(4), of cs] assms(5)
    by (simp only: assms(2) js_incr_funpow) simp
  moreover have "iv_bytes i \<noteq> iv_bytes j"
  proof
    assume "iv_bytes i = iv_bytes j"
    from iv_bytes_inj [OF i(2) assms(5) this] assms(3) show False by simp
  qed
  ultimately show ?thesis by simp
qed

text \<open>
  C5, at the input where it fails. An engine armed by \<^verbatim>\<open>deriveKeyFromPIN\<close> encrypts
  \<open>2 ^ 32 + 1\<close> frames: the call number \<open>2 ^ 32\<close> (counting from 0) puts the same
  12 bytes in front of its output as the call number 0, because the iv holds the counter
  modulo \<open>2 ^ 32\<close> only.
\<close>

theorem iv_repeats_after_2_32_calls:
  "take 12 (fst (encryptFrames toy_subtle
                  (deriveKeyFromPIN toy_subtle E2EECrypto_new ''1234567890'')
                  (replicate 4294967297 [5, 6])) ! 4294967296)
     = take 12 (fst (encryptFrames toy_subtle
                  (deriveKeyFromPIN toy_subtle E2EECrypto_new ''1234567890'')
                  (replicate 4294967297 [5, 6])) ! 0) \<and>
   (4294967296 :: nat) \<noteq> 0"
proof -
  let ?e = "deriveKeyFromPIN toy_subtle E2EECrypto_new ''1234567890''"
  let ?k = "deriveKey toy_subtle (encode ''1234567890'') (encode ''SecureVideoCall2025'')
              100000 ''SHA-256'' 256"
  let ?ds = "replicate 4294967297 [5, 6 :: byte]"
  have k: "cryptoKey ?e = Some ?k" by (simp add: deriveKeyFromPIN_def Let_def)
  have c: "ivCounter ?e = 0" by (simp add: deriveKeyFromPIN_def Let_def E2EECrypto_new_def)
  have l0: "0 < length ?ds" and l1: "4294967296 < length ?ds" by simp_all
  have a: "take 12 (fst (encryptFrames toy_subtle ?e ?ds) ! 4294967296) = iv_bytes 4294967296"
    using encryptFrames_nth [OF k l1, of toy_subtle] by (simp only: c js_incr_funpow) simp
  have b: "take 12 (fst (encryptFrames toy_subtle ?e ?ds) ! 0) = iv_bytes 0"
    using encryptFrames_nth [OF k l0, of toy_subtle] by (simp only: c js_incr_funpow) simp
  have "iv_bytes 4294967296 = iv_bytes 0" by (simp add: iv_bytes_def)
  with a b show ?thesis by simp
qed

text \<open>
  C10. An engine armed with a PIN after \<^verbatim>\<open>handleLeave\<close> has replaced the client's engine
  (whatever the client's state was) holds the same key as a first engine armed with that
  PIN, and its call number \<open>i\<close> of \<^verbatim>\<open>encryptFrame\<close> puts the same 12-byte iv in front
  of its output as the first engine's call number \<open>i\<close>, whatever frames the two encrypt:
  the counter starts at 0 in every new engine, so pairs of key and iv repeat from one
  engine to the next.
\<close>

theorem iv_repeats_across_engines:
  assumes "i < length ds" and "i < length ds'"
  shows "cryptoKey (deriveKeyFromPIN cs (cryptoRef (snd (handleLeave c))) p)
           = cryptoKey (deriveKeyFromPIN cs E2EECrypto_new p) \<and>
         take 12 (fst (encryptFrames cs (deriveKeyFromPIN cs (cryptoRef (snd (handleLeave c))) p) ds') ! i)
           = take 12 (fst (encryptFrames cs (deriveKeyFromPIN cs E2EECrypto_new p) ds) ! i)"
proof -
  let ?a = "deriveKeyFromPIN cs E2EECrypto_new p"
  let ?b = "deriveKeyFromPIN cs (cryptoRef (snd (handleLeave c))) p"
  let ?k = "deriveKey cs (encode p) (encode ''SecureVideoCall2025'') 100000 ''SHA-256'' 256"
  have ka: "cryptoKey ?a = Some ?k" and kb: "cryptoKey ?b = Some ?k"
    by (simp_all add: deriveKeyFromPIN_def Let_def)
  have ca: "ivCounter ?a = 0" and cb: "ivCounter ?b = 0"
    by (simp_all add: deriveKeyFromPIN_def Let_def handleLeave_def E2EECrypto_new_def)
  from encryptFrames_nth [OF ka assms(1), of cs] encryptFrames_nth [OF kb assms(2), of cs]
  have "take 12 (fst (encryptFrames cs ?b ds') ! i) = take 12 (fst (encryptFrames cs ?a ds) ! i)"
    by (simp only: ca cb)
  with ka kb show ?thesis by simp
qed

theorem iv_repeats_across_engines_witness:
  "(1::nat) < length [[1], [2 :: byte]] \<and> (1::nat) < length [[3], [4 :: byte]] \<and>
   cryptoKey (deriveKeyFromPIN toy_subtle
       (cryptoRef (snd (handleLeave
          ((client_new ''1234567890'')\<lparr>cryptoRef := E2EECrypto_new\<lparr>ivCounter := 41\<rparr>\<rparr>))))
       ''1234567890'')
     = cryptoKey (deriveKeyFromPIN toy_subtle E2EECrypto_new ''1234567890'') \<and>
   take 12 (fst (encryptFrames toy_subtle (deriveKeyFromPIN toy_subtle
       (cryptoRef (snd (handleLeave
          ((client_new ''1234567890'')\<lparr>cryptoRef := E2EECrypto_new\<lparr>ivCounter := 41\<rparr>\<rparr>))))
       ''1234567890'') [[3], [4]]) ! 1)
     = take 12 (fst (encryptFrames toy_subtle
         (deriveKeyFromPIN toy_subtle E2EECrypto_new ''1234567890'') [[1], [2]]) ! 1)"
proof -
  have a: "(1::nat) < length [[1], [2 :: byte]]" and b: "(1::nat) < length [[3], [4 :: byte]]"
    by simp_all
  from a b iv_repeats_across_engines [OF a b, of toy_subtle
      "(client_new ''1234567890'')\<lparr>cryptoRef := E2EECrypto_new\<lparr>ivCounter := 41\<rparr>\<rparr>" "''1234567890''"]
  show ?thesis by blast
qed

section \<open>Encrypting and decrypting a frame\<close>

lemma roundtrip_frame:
  assumes "aead_correct cs" and "cryptoKey e1 = Some k" and "cryptoKey e2 = Some k"
  shows "decryptFrame cs e2 (fst (encryptFrame cs e1 p)) = p"
proof -
  let ?iv = "fst (generateIV e1)"
  have len: "length ?iv = 12" by simp
  from assms(1) len have "decrypt cs k ?iv (encrypt cs k ?iv p) = Some p"
    unfolding aead_correct_def by blast
  with assms(2,3) len show ?thesis
    by (simp add: encryptFrame_keyed decryptFrame_def)
qed

lemma aead_correct_toy: "aead_correct toy_subtle"
  by (simp add: aead_correct_def toy_subtle_def)

lemma toy_key:
  "cryptoKey (deriveKeyFromPIN toy_subtle e ''1234567890'')
     = Some (encode ''1234567890'' @ encode ''SecureVideoCall2025'')"
  by (simp add: deriveKeyFromPIN_def toy_subtle_def Let_def)

text \<open>
  C3. Where AES-GCM decryption undoes AES-GCM encryption under the same key and iv, and
  two engines hold the same key \<open>k\<close> (any key, so also one derived by
  \<^verbatim>\<open>deriveKeyFromPIN\<close>), \<^verbatim>\<open>decryptFrame\<close> of the second engine on the output of
  \<^verbatim>\<open>encryptFrame\<close> of the first gives the frame \<open>p\<close> back, for every frame and at every
  state of the two counters.
\<close>

theorem encrypt_decrypt_roundtrip:
  assumes "aead_correct cs" and "cryptoKey e1 = Some k" and "cryptoKey e2 = Some k"
  shows "decryptFrame cs e2 (fst (encryptFrame cs e1 p)) = p"
  using assms by (rule roundtrip_frame)

theorem encrypt_decrypt_roundtrip_witness:
  "cryptoKey (deriveKeyFromPIN toy_subtle E2EECrypto_new ''1234567890'')
     = Some (encode ''1234567890'' @ encode ''SecureVideoCall2025'') \<and>
   cryptoKey (deriveKeyFromPIN toy_subtle (E2EECrypto_new\<lparr>ivCounter := 7\<rparr>) ''1234567890'')
     = Some (encode ''1234567890'' @ encode ''SecureVideoCall2025'') \<and>
   decryptFrame toy_subtle (deriveKeyFromPIN toy_subtle (E2EECrypto_new\<lparr>ivCounter := 7\<rparr>) ''1234567890'')
     (fst (encryptFrame toy_subtle (deriveKeyFromPIN toy_subtle E2EECrypto_new ''1234567890'')
        [1, 2, 3]))
     = [1, 2, 3]"
  using toy_key [of E2EECrypto_new] toy_key [of "E2EECrypto_new\<lparr>ivCounter := 7\<rparr>"]
    encrypt_decrypt_roundtrip [OF aead_correct_toy toy_key [of E2EECrypto_new]
      toy_key [of "E2EECrypto_new\<lparr>ivCounter := 7\<rparr>"], of "[1, 2, 3]"]
  by blast

text \<open>
  C6. With a key set, a frame made of a 12-byte iv and a ciphertext portion that AES-GCM
  does not authenticate under that key and iv (the decryption call is rejected, for a
  flipped bit or for any other reason) makes \<^verbatim>\<open>decryptFrame\<close> return the empty byte
  sequence: the rejection is caught, nothing is raised, no plaintext is returned.
\<close>

theorem decrypt_failure_gives_empty:
  assumes "cryptoKey e = Some k" and "length iv = 12" and "decrypt cs k iv c = None"
  shows "decryptFrame cs e (iv @ c) = []"
  using assms by (simp add: decryptFrame_def)

theorem decrypt_failure_gives_empty_witness:
  "fst (encryptFrame toy_subtle (E2EECrypto_new\<lparr>cryptoKey := Some [1]\<rparr>) [5, 6])
     = [0, 0, 0, 0, 0, 0, 0, 0, 0, 0, 0, 0] @ [1, 5, 6] \<and>
   cryptoKey (E2EECrypto_new\<lparr>cryptoKey := Some [1 :: byte]\<rparr>) = Some [1] \<and>
   length [0, 0, 0, 0, 0, 0, 0, 0, 0, 0, 0, 0 :: byte] = 12 \<and>
   decrypt toy_subtle [1] [0, 0, 0, 0, 0, 0, 0, 0, 0, 0, 0, 0] [0, 5, 6] = None \<and>
   decryptFrame toy_subtle (E2EECrypto_new\<lparr>cryptoKey := Some [1]\<rparr>)
     ([0, 0, 0, 0, 0, 0, 0, 0, 0, 0, 0, 0] @ [0, 5, 6]) = []"
proof -
  have g: "fst (encryptFrame toy_subtle (E2EECrypto_new\<lparr>cryptoKey := Some [1]\<rparr>) [5, 6])
     = [0, 0, 0, 0, 0, 0, 0, 0, 0, 0, 0, 0] @ [1, 5, 6]"
    by (simp add: encryptFrame_keyed generateIV_bytes be32_def E2EECrypto_new_def
        toy_subtle_def toy_tag_def)
  have k: "cryptoKey (E2EECrypto_new\<lparr>cryptoKey := Some [1 :: byte]\<rparr>) = Some [1]"
    by simp
  have l: "length [0, 0, 0, 0, 0, 0, 0, 0, 0, 0, 0, 0 :: byte] = 12" by simp
  have d: "decrypt toy_subtle [1] [0, 0, 0, 0, 0, 0, 0, 0, 0, 0, 0, 0] [0, 5, 6] = None"
    by (simp add: toy_subtle_def toy_tag_def)
  from g k l d decrypt_failure_gives_empty [OF k l d]
  show ?thesis by blast
qed

text \<open>
  C8. Without a key, \<^verbatim>\<open>encryptFrame\<close> returns its input (and leaves the counter alone)
  and \<^verbatim>\<open>decryptFrame\<close> returns its input; and with or without a key, \<^verbatim>\<open>decryptFrame\<close>
  returns an input of fewer than 12 bytes unchanged.
\<close>

theorem passthrough_without_key_or_short:
  "(cryptoKey e = None \<longrightarrow> encryptFrame cs e d = (d, e) \<and> decryptFrame cs e d = d) \<and>
   (length d < 12 \<longrightarrow> decryptFrame cs e d = d)"
  by (simp add: encryptFrame_def decryptFrame_def split: option.splits)

theorem passthrough_without_key_or_short_witness:
  "cryptoKey (E2EECrypto_new :: bytes E2EECrypto) = None \<and>
   encryptFrame toy_subtle E2EECrypto_new [1, 2, 3] = ([1, 2, 3], E2EECrypto_new) \<and>
   decryptFrame toy_subtle E2EECrypto_new [1, 2, 3] = [1, 2, 3] \<and>
   length [9, 8, 7 :: byte] < 12 \<and>
   decryptFrame toy_subtle (deriveKeyFromPIN toy_subtle E2EECrypto_new ''1234567890'') [9, 8, 7]
     = [9, 8, 7]"
proof -
  have n: "cryptoKey (E2EECrypto_new :: bytes E2EECrypto) = None"
    by (simp add: E2EECrypto_new_def)
  have l: "length [9, 8, 7 :: byte] < 12" by simp
  from n l
    passthrough_without_key_or_short [of "E2EECrypto_new :: bytes E2EECrypto" toy_subtle "[1, 2, 3]"]
    passthrough_without_key_or_short
      [of "deriveKeyFromPIN toy_subtle E2EECrypto_new ''1234567890''" toy_subtle "[9, 8, 7]"]
  show ?thesis by blast
qed

text \<open>
  C9. \<^verbatim>\<open>deriveKeyFromPIN\<close> sets the key to the PBKDF2 derivation of the secret's bytes
  with the salt \<^verbatim>\<open>SecureVideoCall2025\<close>, 100000 iterations, SHA-256 and a key length of
  256 bits: a value that depends on the secret alone, so two engines in any two states
  get the same key from the same secret; and, where AES-GCM decryption undoes encryption,
  a frame encrypted by one of them is recovered by the other.
\<close>

theorem deriveKeyFromPIN_deterministic:
  "cryptoKey (deriveKeyFromPIN cs e1 s)
     = Some (deriveKey cs (encode s) (encode ''SecureVideoCall2025'') 100000 ''SHA-256'' 256) \<and>
   cryptoKey (deriveKeyFromPIN cs e2 s) = cryptoKey (deriveKeyFromPIN cs e1 s) \<and>
   (aead_correct cs \<longrightarrow>
      decryptFrame cs (deriveKeyFromPIN cs e2 s)
        (fst (encryptFrame cs (deriveKeyFromPIN cs e1 s) p)) = p)"
proof -
  have k: "cryptoKey (deriveKeyFromPIN cs e s)
     = Some (deriveKey cs (encode s) (encode ''SecureVideoCall2025'') 100000 ''SHA-256'' 256)"
    for e :: "'a E2EECrypto"
    by (simp add: deriveKeyFromPIN_def Let_def)
  show ?thesis
    using k [of e1] k [of e2] roundtrip_frame [OF _ k [of e1] k [of e2]] by simp
qed

theorem deriveKeyFromPIN_deterministic_witness:
  "cryptoKey (deriveKeyFromPIN toy_subtle (E2EECrypto_new\<lparr>ivCounter := 7\<rparr>) ''1234567890'')
     = cryptoKey (deriveKeyFromPIN toy_subtle E2EECrypto_new ''1234567890'') \<and>
   decryptFrame toy_subtle (deriveKeyFromPIN toy_subtle (E2EECrypto_new\<lparr>ivCounter := 7\<rparr>) ''1234567890'')
     (fst (encryptFrame toy_subtle (deriveKeyFromPIN toy_subtle E2EECrypto_new ''1234567890'')
        [1, 2, 3]))
     = [1, 2, 3]"
  using aead_correct_toy
    deriveKeyFromPIN_deterministic
      [of toy_subtle E2EECrypto_new "''1234567890''" "E2EECrypto_new\<lparr>ivCounter := 7\<rparr>" "[1, 2, 3]"]
  by blast

end
